theory Spec2Isabelle
  imports Complex_Main
begin

section \<open>Python values\<close>

text \<open>
  The validator receives decoded JSON: \<open>None\<close>, booleans, unbounded integers, floats,
  strings, lists and string-keyed dictionaries. A dictionary is an association list in
  insertion order. A float is either a finite number (kept as the rational it denotes),
  an infinity or NaN; only its conversion to \<open>int\<close> is computed here. A string is a list
  of code points below 256; strings with other code points are outside the model.
\<close>

datatype pyfloat = FFinite rat | FPosInf | FNegInf | FNaN

datatype pyval =
    PNone
  | PBool bool
  | PInt int
  | PFloat pyfloat
  | PStr string
  | PList "pyval list"
  | PDict "(string \<times> pyval) list"

datatype pytype = TNone | TBool | TInt | TFloat | TStr | TList | TDict

datatype exn = TypeError | ValueError | OverflowError | KeyError | AttributeError

fun type_of :: "pyval \<Rightarrow> pytype" where
  "type_of PNone = TNone"
| "type_of (PBool b) = TBool"
| "type_of (PInt i) = TInt"
| "type_of (PFloat x) = TFloat"
| "type_of (PStr s) = TStr"
| "type_of (PList xs) = TList"
| "type_of (PDict kvs) = TDict"

subsection \<open>Text of values\<close>

definition quoted :: "string \<Rightarrow> string" where
  "quoted s = [CHR 0x27] @ s @ [CHR 0x27]"

definition digit_char :: "nat \<Rightarrow> char" where
  "digit_char n = char_of (48 + n)"

fun str_of_nat :: "nat \<Rightarrow> string" where
  "str_of_nat n = (if n < 10 then [digit_char n] else str_of_nat (n div 10) @ [digit_char (n mod 10)])"

declare str_of_nat.simps [simp del]

definition str_of_int :: "int \<Rightarrow> string" where
  "str_of_int i = (if i < 0 then CHR ''-'' # str_of_nat (nat (- i)) else str_of_nat (nat i))"

text \<open>
  The interpreter refuses to convert between \<open>int\<close> and \<open>str\<close> when more than
  \<open>sys.int_info.default_max_str_digits\<close> digits are involved: it raises ValueError. The
  sign is not counted. \<open>str_of_int\<close> is the decimal text, \<open>format_int\<close> is what
  \<open>str(i)\<close> and \<open>{i}\<close> in an f-string do.
\<close>

definition max_str_digits :: nat where
  "max_str_digits = 4300"

definition digit_count :: "int \<Rightarrow> nat" where
  "digit_count i = length (str_of_nat (nat \<bar>i\<bar>))"

definition format_int :: "int \<Rightarrow> exn + string" where
  "format_int i = (if max_str_digits < digit_count i then Inl ValueError else Inr (str_of_int i))"

text \<open>
  What an f-string prints for a type object, as in \<open>{cls}\<close> and \<open>{type(value)}\<close>.
\<close>

fun type_name :: "pytype \<Rightarrow> string" where
  "type_name TNone = ''NoneType''"
| "type_name TBool = ''bool''"
| "type_name TInt = ''int''"
| "type_name TFloat = ''float''"
| "type_name TStr = ''str''"
| "type_name TList = ''list''"
| "type_name TDict = ''dict''"

definition str_of_type :: "pytype \<Rightarrow> string" where
  "str_of_type t = ''<class '' @ quoted (type_name t) @ ''>''"

text \<open>
  The text of a set depends on its iteration order, which the source does not fix, and the
  text of a float or a container is the interpreter's business: both are parameters of the
  model. The text of a set is taken as a function of its elements; the order in which
  the interpreter prints them may also depend on how the set was built, which is not
  tracked. \<open>None\<close>, booleans, integers and strings are printed here; printing an
  integer raises when it has too many digits.
\<close>

record py_fmt =
  fmt_set :: "string set \<Rightarrow> string"
  fmt_other :: "pyval \<Rightarrow> string"

definition py_str :: "py_fmt \<Rightarrow> pyval \<Rightarrow> exn + string" where
  "py_str F v =
     (case v of
        PNone \<Rightarrow> Inr ''None''
      | PBool b \<Rightarrow> Inr (if b then ''True'' else ''False'')
      | PInt i \<Rightarrow> format_int i
      | PStr s \<Rightarrow> Inr s
      | _ \<Rightarrow> Inr (fmt_other F v))"

subsection \<open>The built-in \<open>int(value)\<close>\<close>

text \<open>
  For a string: surrounding whitespace is dropped, one sign is allowed, then decimal
  digits, where single underscores may separate digits, and at most \<open>max_str_digits\<close>
  digits. Among the code points below 256 the whitespace that \<open>int\<close> drops is tab to
  carriage return, the space, and the two non-ASCII blanks U+0085 and U+00A0 (the
  separators U+001C to U+001F are not dropped); the only decimal digits are \<open>0\<close> to
  \<open>9\<close>. Every failure is a ValueError.
\<close>

definition is_space :: "char \<Rightarrow> bool" where
  "is_space c =
     (let n = (of_char c :: nat) in (9 \<le> n \<and> n \<le> 13) \<or> n = 32 \<or> n = 133 \<or> n = 160)"

definition is_digit :: "char \<Rightarrow> bool" where
  "is_digit c = (let n = (of_char c :: nat) in 48 \<le> n \<and> n \<le> 57)"

definition digit_val :: "char \<Rightarrow> int" where
  "digit_val c = int (of_char c) - 48"

fun parse_digits :: "bool \<Rightarrow> int \<Rightarrow> string \<Rightarrow> int option" where
  "parse_digits after_digit acc [] = (if after_digit then Some acc else None)"
| "parse_digits after_digit acc (c # cs) =
     (if is_digit c then parse_digits True (10 * acc + digit_val c) cs
      else if c = CHR ''_'' \<and> after_digit then parse_digits False acc cs
      else None)"

definition strip :: "string \<Rightarrow> string" where
  "strip s = rev (dropWhile is_space (rev (dropWhile is_space s)))"

definition int_of_str :: "string \<Rightarrow> int option" where
  "int_of_str s =
     (if max_str_digits < length (filter is_digit (strip s)) then None
      else
        (case strip s of
           [] \<Rightarrow> None
         | c # cs \<Rightarrow>
             if c = CHR ''-'' then map_option uminus (parse_digits False 0 cs)
             else if c = CHR ''+'' then parse_digits False 0 cs
             else parse_digits False 0 (c # cs)))"

definition truncate :: "rat \<Rightarrow> int" where
  "truncate q = (if q < 0 then - \<lfloor>- q\<rfloor> else \<lfloor>q\<rfloor>)"

fun py_int :: "pyval \<Rightarrow> exn + int" where
  "py_int PNone = Inl TypeError"
| "py_int (PBool b) = Inr (if b then 1 else 0)"
| "py_int (PInt i) = Inr i"
| "py_int (PFloat (FFinite q)) = Inr (truncate q)"
| "py_int (PFloat FPosInf) = Inl OverflowError"
| "py_int (PFloat FNegInf) = Inl OverflowError"
| "py_int (PFloat FNaN) = Inl ValueError"
| "py_int (PStr s) = (case int_of_str s of None \<Rightarrow> Inl ValueError | Some i \<Rightarrow> Inr i)"
| "py_int (PList xs) = Inl TypeError"
| "py_int (PDict kvs) = Inl TypeError"

section \<open>Configuration constants\<close>

text \<open>
  The module reads each constant from the environment with a default. The model fixes
  every constant at its default.
\<close>

definition MIN_WATER_TEMP :: int where "MIN_WATER_TEMP = 49"
definition MAX_WATER_TEMP :: int where "MAX_WATER_TEMP = 60"
definition MIN_AC_TEMP :: int where "MIN_AC_TEMP = 16"
definition MAX_AC_TEMP :: int where "MAX_AC_TEMP = 30"
definition MIN_BRIGHTNESS :: int where "MIN_BRIGHTNESS = 0"
definition MAX_BRIGHTNESS :: int where "MAX_BRIGHTNESS = 100"
definition MIN_POSITION :: int where "MIN_POSITION = 0"
definition MAX_POSITION :: int where "MAX_POSITION = 100"
definition MIN_BATTERY :: int where "MIN_BATTERY = 0"
definition MAX_BATTERY :: int where "MAX_BATTERY = 100"

definition DEVICE_TYPES :: "string set" where
  "DEVICE_TYPES = {''light'', ''water_heater'', ''air_conditioner'', ''door_lock'', ''curtain''}"

definition DEVICE_PARAMETERS :: "string set" where
  "DEVICE_PARAMETERS = {''id'', ''type'', ''room'', ''name'', ''status'', ''parameters''}"

definition WATER_HEATER_PARAMETERS :: "string set" where
  "WATER_HEATER_PARAMETERS =
     {''temperature'', ''target_temperature'', ''is_heating'', ''timer_enabled'',
      ''scheduled_on'', ''scheduled_off''}"

definition LIGHT_PARAMETERS :: "string set" where
  "LIGHT_PARAMETERS = {''brightness'', ''color'', ''is_dimmable'', ''dynamic_color''}"

definition AC_PARAMETERS :: "string set" where
  "AC_PARAMETERS = {''temperature'', ''mode'', ''fan_speed'', ''swing''}"

definition AC_MODES :: "string set" where
  "AC_MODES = {''cool'', ''heat'', ''fan''}"

definition AC_FAN_SETTINGS :: "string set" where
  "AC_FAN_SETTINGS = {''off'', ''low'', ''medium'', ''high''}"

definition AC_SWING_MODES :: "string set" where
  "AC_SWING_MODES = {''off'', ''on'', ''auto''}"

definition LOCK_PARAMETERS :: "string set" where
  "LOCK_PARAMETERS = {''auto_lock_enabled'', ''battery_level''}"

definition CURTAIN_PARAMETERS :: "string set" where
  "CURTAIN_PARAMETERS = {''position''}"

subsection \<open>The two regular expressions\<close>

text \<open>
  \<open>re.match\<close> anchors at the start; the final \<open>$\<close> matches at the end of the string
  and also just before one trailing newline.
\<close>

definition before_end :: "(string \<Rightarrow> bool) \<Rightarrow> string \<Rightarrow> bool" where
  "before_end body s = (body s \<or> (s \<noteq> [] \<and> last s = CHR 0x0A \<and> body (butlast s)))"

definition hours :: "char \<Rightarrow> char \<Rightarrow> bool" where
  "hours a b =
     (((a = CHR ''0'' \<or> a = CHR ''1'') \<and> is_digit b)
      \<or> (a = CHR ''2'' \<and> (b = CHR ''0'' \<or> b = CHR ''1'' \<or> b = CHR ''2'' \<or> b = CHR ''3'')))"

definition sixty :: "char \<Rightarrow> char \<Rightarrow> bool" where
  "sixty a b =
     ((a = CHR ''0'' \<or> a = CHR ''1'' \<or> a = CHR ''2'' \<or> a = CHR ''3'' \<or> a = CHR ''4''
        \<or> a = CHR ''5'') \<and> is_digit b)"

definition time_body :: "string \<Rightarrow> bool" where
  "time_body s =
     (case s of
        [h1, h2, c, m1, m2] \<Rightarrow> hours h1 h2 \<and> c = CHR '':'' \<and> sixty m1 m2
      | [h1, h2, c, m1, m2, c2, s1, s2] \<Rightarrow>
          hours h1 h2 \<and> c = CHR '':'' \<and> sixty m1 m2 \<and> c2 = CHR '':'' \<and> sixty s1 s2
      | _ \<Rightarrow> False)"

definition match_TIME_REGEX :: "string \<Rightarrow> bool" where
  "match_TIME_REGEX s = before_end time_body s"

definition is_hex :: "char \<Rightarrow> bool" where
  "is_hex c =
     (let n = (of_char c :: nat)
      in (48 \<le> n \<and> n \<le> 57) \<or> (65 \<le> n \<and> n \<le> 70) \<or> (97 \<le> n \<and> n \<le> 102))"

definition color_body :: "string \<Rightarrow> bool" where
  "color_body s =
     (case s of
        [] \<Rightarrow> False
      | c # cs \<Rightarrow> c = CHR ''#'' \<and> (length cs = 3 \<or> length cs = 6) \<and> list_all is_hex cs)"

definition match_COLOR_REGEX :: "string \<Rightarrow> bool" where
  "match_COLOR_REGEX s = before_end color_body s"

definition verify_time_string :: "string \<Rightarrow> bool" where
  "verify_time_string s = match_TIME_REGEX s"

section \<open>The primitive checker\<close>

text \<open>
  The fourth argument of \<open>verify_type_and_range\<close> is a pair of bounds, a set of strings,
  a string, or \<open>None\<close>.
\<close>

datatype value_range = NoRange | Bounds int int | Allowed "string set" | Named string

text \<open>
  \<open>minimum, maximum = value_range\<close> stands outside the \<open>try\<close>: a pair unpacks; a set or
  a string with other than two elements raises ValueError, and with two the comparison of
  the integer with a string raises TypeError. In the string branch the value has passed
  \<open>type(value) is not cls\<close>, so it is a string; the other case of the match on \<open>v\<close> is
  never taken.
\<close>

text \<open>
  The f-string of the range error prints three integers, outside the \<open>try\<close>.
\<close>

definition range_error :: "string \<Rightarrow> int \<Rightarrow> int \<Rightarrow> int \<Rightarrow> exn + string" where
  "range_error name minimum maximum i =
     (case format_int minimum of
        Inl e \<Rightarrow> Inl e
      | Inr lo \<Rightarrow>
          (case format_int maximum of
             Inl e \<Rightarrow> Inl e
           | Inr hi \<Rightarrow>
               (case format_int i of
                  Inl e \<Rightarrow> Inl e
                | Inr got \<Rightarrow>
                    Inr (name @ '' must be between '' @ lo @ '' and '' @ hi @ '', got '' @ got
                         @ '' instead.''))))"

definition verify_type_and_range ::
    "py_fmt \<Rightarrow> pyval \<Rightarrow> string \<Rightarrow> pytype \<Rightarrow> value_range \<Rightarrow> exn + (bool \<times> string option)" where
  "verify_type_and_range F v name cls vr =
     (if cls = TInt then
        (case py_int v of
           Inl e \<Rightarrow>
             if e = ValueError
             then (case py_str F v of
                     Inl e' \<Rightarrow> Inl e'
                   | Inr got \<Rightarrow>
                       Inr (False, Some (name @ '' must be a numeric string, got '' @ got
                                         @ '' instead.'')))
             else Inl e
         | Inr i \<Rightarrow>
             (case vr of
                NoRange \<Rightarrow> Inr (True, None)
              | Bounds minimum maximum \<Rightarrow>
                  if i > maximum \<or> i < minimum
                  then (case range_error name minimum maximum i of
                          Inl e \<Rightarrow> Inl e
                        | Inr error \<Rightarrow> Inr (False, Some error))
                  else Inr (True, None)
              | Allowed S \<Rightarrow> Inl (if card S = 2 then TypeError else ValueError)
              | Named n \<Rightarrow> Inl (if length n = 2 then TypeError else ValueError)))
      else if type_of v \<noteq> cls then
        Inr (False, Some (name @ '' must be a '' @ str_of_type cls @ '', got ''
                          @ str_of_type (type_of v) @ '' instead.''))
      else if cls = TStr then
        (case v of
           PStr s \<Rightarrow>
             (case vr of
                Allowed S \<Rightarrow>
                  if s \<notin> S
                  then Inr (False, Some (quoted s @ '' is not a valid value for '' @ name
                                          @ ''. Must be one of '' @ fmt_set F S @ ''.''))
                  else Inr (True, None)
              | Named n \<Rightarrow>
                  if n = ''time'' then
                    Inr (match_TIME_REGEX s,
                         if match_TIME_REGEX s then None
                         else Some (quoted s @ '' is not a valid ISO format time string.''))
                  else if n = ''color'' then
                    Inr (match_COLOR_REGEX s,
                         if match_COLOR_REGEX s then None
                         else Some (quoted s @ '' is not a valid hex color string.''))
                  else Inr (True, None)
              | _ \<Rightarrow> Inr (True, None))
         | _ \<Rightarrow> Inl TypeError)
      else Inr (True, None))"

section \<open>The device validator\<close>

type_synonym dict = "(string \<times> pyval) list"

text \<open>
  Every error is also sent to the logger; the log is not part of the result and is left out.
\<close>

text \<open>
  The accumulator \<open>errors\<close> receives whatever \<open>reason\<close> the checker returned, which is a
  string or \<open>None\<close>; \<open>errors_are_strings\<close> below shows that it only ever holds strings.
\<close>

type_synonym errs = "string option list"

definition keys :: "dict \<Rightarrow> string set" where
  "keys d = set (map fst d)"

text \<open>A \<open>for\<close> loop over a list whose body updates the accumulator or raises.\<close>

fun for_each :: "('s \<Rightarrow> 'a \<Rightarrow> exn + 's) \<Rightarrow> 'a list \<Rightarrow> 's \<Rightarrow> exn + 's" where
  "for_each body [] s = Inr s"
| "for_each body (x # xs) s =
     (case body s x of Inl e \<Rightarrow> Inl e | Inr s' \<Rightarrow> for_each body xs s')"

text \<open>
  \<open>success, reason = verify_type_and_range(...)\<close> followed by
  \<open>if not success: errors.append(reason)\<close>.
\<close>

definition append_unless_success :: "errs \<Rightarrow> exn + (bool \<times> string option) \<Rightarrow> exn + errs" where
  "append_unless_success errors r =
     (case r of
        Inl e \<Rightarrow> Inl e
      | Inr (success, reason) \<Rightarrow> Inr (if \<not> success then errors @ [reason] else errors))"

definition read_only_error :: "string \<Rightarrow> string" where
  "read_only_error key = ''Cannot update read-only parameter '' @ quoted key @ ''.''"

subsection \<open>The per-key rules of each device type\<close>

definition door_lock_item :: "py_fmt \<Rightarrow> bool \<Rightarrow> errs \<Rightarrow> string \<times> pyval \<Rightarrow> exn + errs" where
  "door_lock_item F new_device errors kv =
     (case kv of (key, v) \<Rightarrow>
        if key = ''auto_lock_enabled'' then
          (if new_device
           then append_unless_success errors
                  (verify_type_and_range F v (quoted ''auto_lock_enabled'') TBool NoRange)
           else Inr (errors @ [Some (read_only_error key)]))
        else if key = ''battery_level'' then
          append_unless_success errors
            (verify_type_and_range F v (quoted ''battery_level'') TInt (Bounds MIN_BATTERY MAX_BATTERY))
        else Inr errors)"

definition curtain_item :: "py_fmt \<Rightarrow> bool \<Rightarrow> errs \<Rightarrow> string \<times> pyval \<Rightarrow> exn + errs" where
  "curtain_item F new_device errors kv =
     (case kv of (key, v) \<Rightarrow>
        if key = ''position'' then
          append_unless_success errors
            (verify_type_and_range F v (quoted ''position'') TInt (Bounds MIN_POSITION MAX_POSITION))
        else Inr errors)"

definition air_conditioner_item :: "py_fmt \<Rightarrow> bool \<Rightarrow> errs \<Rightarrow> string \<times> pyval \<Rightarrow> exn + errs" where
  "air_conditioner_item F new_device errors kv =
     (case kv of (key, v) \<Rightarrow>
        if key = ''temperature'' then
          append_unless_success errors
            (verify_type_and_range F v (quoted ''temperature'') TInt (Bounds MIN_AC_TEMP MAX_AC_TEMP))
        else if key = ''mode'' then
          append_unless_success errors
            (verify_type_and_range F v (quoted ''mode'') TStr (Allowed AC_MODES))
        else if key = ''fan'' then
          append_unless_success errors
            (verify_type_and_range F v (quoted ''fan'') TStr (Allowed AC_FAN_SETTINGS))
        else if key = ''swing'' then
          append_unless_success errors
            (verify_type_and_range F v (quoted ''swing'') TStr (Allowed AC_SWING_MODES))
        else Inr errors)"

definition water_heater_item :: "py_fmt \<Rightarrow> bool \<Rightarrow> errs \<Rightarrow> string \<times> pyval \<Rightarrow> exn + errs" where
  "water_heater_item F new_device errors kv =
     (case kv of (key, v) \<Rightarrow>
        if key = ''temperature'' then
          append_unless_success errors
            (verify_type_and_range F v (quoted ''temperature'') TInt NoRange)
        else if key = ''target_temperature'' then
          append_unless_success errors
            (verify_type_and_range F v (quoted ''target_temperature'') TInt
               (Bounds MIN_WATER_TEMP MAX_WATER_TEMP))
        else if key = ''is_heating'' then
          append_unless_success errors
            (verify_type_and_range F v (quoted ''is_heating'') TBool NoRange)
        else if key = ''timer_enabled'' then
          append_unless_success errors
            (verify_type_and_range F v (quoted ''timer_enabled'') TBool NoRange)
        else if key = ''scheduled_on'' then
          append_unless_success errors
            (verify_type_and_range F v (quoted ''scheduled_on'') TStr (Named ''time''))
        else if key = ''scheduled_off'' then
          append_unless_success errors
            (verify_type_and_range F v (quoted ''scheduled_off'') TStr (Named ''time''))
        else Inr errors)"

definition light_item :: "py_fmt \<Rightarrow> bool \<Rightarrow> errs \<Rightarrow> string \<times> pyval \<Rightarrow> exn + errs" where
  "light_item F new_device errors kv =
     (case kv of (key, v) \<Rightarrow>
        if key = ''brightness'' then
          append_unless_success errors
            (verify_type_and_range F v (quoted ''brightness'') TInt (Bounds MIN_BRIGHTNESS MAX_BRIGHTNESS))
        else if key = ''color'' then
          append_unless_success errors
            (verify_type_and_range F v (quoted ''color'') TStr (Named ''color''))
        else if key = ''is_dimmable'' then
          (if new_device
           then append_unless_success errors
                  (verify_type_and_range F v (quoted ''is_dimmable'') TBool NoRange)
           else Inr (errors @ [Some (read_only_error key)]))
        else if key = ''dynamic_color'' then
          (if new_device
           then append_unless_success errors
                  (verify_type_and_range F v (quoted ''dynamic_color'') TBool NoRange)
           else Inr (errors @ [Some (read_only_error key)]))
        else Inr errors)"

subsection \<open>The \<open>parameters\<close> field\<close>

definition disallowed_error :: "py_fmt \<Rightarrow> string \<Rightarrow> string set \<Rightarrow> string set \<Rightarrow> string" where
  "disallowed_error F device left_over allowed =
     ''Disallowed parameters for '' @ device @ '' '' @ fmt_set F left_over
       @ '', allowed parameters: '' @ fmt_set F allowed"

text \<open>
  One case of the \<open>match\<close>: the left-over keys are computed, a non-empty left-over appends
  the combined error and leaves the iteration (\<open>continue\<close>), otherwise every item of the
  dictionary goes through the rule of the device type.
\<close>

definition match_case ::
    "py_fmt \<Rightarrow> string \<Rightarrow> string set \<Rightarrow> (errs \<Rightarrow> string \<times> pyval \<Rightarrow> exn + errs) \<Rightarrow> dict \<Rightarrow> errs
       \<Rightarrow> exn + errs" where
  "match_case F device allowed item ps errors =
     (let left_over_parameters = keys ps - allowed
      in if left_over_parameters \<noteq> {}
         then Inr (errors @ [Some (disallowed_error F device left_over_parameters allowed)])
         else for_each item ps errors)"

definition match_device_type :: "py_fmt \<Rightarrow> bool \<Rightarrow> string \<Rightarrow> dict \<Rightarrow> errs \<Rightarrow> exn + errs" where
  "match_device_type F new_device device_type ps errors =
     (if device_type = ''door_lock'' then
        match_case F ''door lock'' LOCK_PARAMETERS (door_lock_item F new_device) ps errors
      else if device_type = ''curtain'' then
        match_case F ''curtain'' CURTAIN_PARAMETERS (curtain_item F new_device) ps errors
      else if device_type = ''air_conditioner'' then
        match_case F ''air conditioner'' AC_PARAMETERS (air_conditioner_item F new_device) ps errors
      else if device_type = ''water_heater'' then
        match_case F ''water heater'' WATER_HEATER_PARAMETERS (water_heater_item F new_device) ps errors
      else if device_type = ''light'' then
        match_case F ''light'' LIGHT_PARAMETERS (light_item F new_device) ps errors
      else Inr errors)"

text \<open>
  \<open>device_data['parameters']\<close> is first checked to be a dictionary. A failure appends the
  reason and leaves the iteration. After a success the value is a dictionary; the other
  case of the match on it is never taken.
\<close>

definition parameters_field :: "py_fmt \<Rightarrow> dict \<Rightarrow> bool \<Rightarrow> string \<Rightarrow> errs \<Rightarrow> exn + errs" where
  "parameters_field F device_data new_device device_type errors =
     (if device_type \<in> DEVICE_TYPES then
        (case map_of device_data ''parameters'' of
           None \<Rightarrow> Inl KeyError
         | Some p \<Rightarrow>
             (case verify_type_and_range F p (quoted ''parameters'') TDict NoRange of
                Inl e \<Rightarrow> Inl e
              | Inr (success, reason) \<Rightarrow>
                  if \<not> success then Inr (errors @ [reason])
                  else (case p of
                          PDict ps \<Rightarrow> match_device_type F new_device device_type ps errors
                        | _ \<Rightarrow> Inl AttributeError)))
      else Inr errors)"

subsection \<open>The \<open>status\<close> field\<close>

definition status_field :: "py_fmt \<Rightarrow> dict \<Rightarrow> string \<Rightarrow> errs \<Rightarrow> exn + errs" where
  "status_field F device_data device_type errors =
     (if device_type \<in> DEVICE_TYPES then
        (case map_of device_data ''status'' of
           None \<Rightarrow> Inl KeyError
         | Some v \<Rightarrow>
             if device_type = ''door_lock'' then
               append_unless_success errors
                 (verify_type_and_range F v (quoted ''status'') TStr (Allowed {''unlocked'', ''locked''}))
             else if device_type = ''curtain'' then
               append_unless_success errors
                 (verify_type_and_range F v (quoted ''status'') TStr (Allowed {''open'', ''closed''}))
             else
               append_unless_success errors
                 (verify_type_and_range F v (quoted ''status'') TStr (Allowed {''on'', ''off''})))
      else Inr errors)"

subsection \<open>\<open>validate_device_data\<close>\<close>

text \<open>The body of \<open>for field in device_data\<close>.\<close>

definition field_body :: "py_fmt \<Rightarrow> dict \<Rightarrow> bool \<Rightarrow> string \<Rightarrow> errs \<Rightarrow> string \<Rightarrow> exn + errs" where
  "field_body F device_data new_device device_type errors field =
     (case (if field = ''status'' then status_field F device_data device_type errors else Inr errors) of
        Inl e \<Rightarrow> Inl e
      | Inr errors' \<Rightarrow>
          if field = ''parameters''
          then parameters_field F device_data new_device device_type errors'
          else Inr errors')"

definition shape_error :: "py_fmt \<Rightarrow> dict \<Rightarrow> string" where
  "shape_error F device_data =
     ''Incorrect field(s) in new device: '' @ fmt_set F (keys device_data - DEVICE_PARAMETERS)
       @ '', missing field(s) in new device: '' @ fmt_set F (DEVICE_PARAMETERS - keys device_data)
       @ '', must be exactly these fields: '' @ fmt_set F DEVICE_PARAMETERS"

definition device_type_error :: "py_fmt \<Rightarrow> pyval \<Rightarrow> exn + (bool \<times> errs)" where
  "device_type_error F device_type =
     (case py_str F device_type of
        Inl e \<Rightarrow> Inl e
      | Inr t \<Rightarrow>
          Inr (False, [Some (''Incorrect device type '' @ t @ '', must be one of ''
                             @ fmt_set F DEVICE_TYPES @ ''.'')]))"

text \<open>
  \<open>device_type_error\<close> is the return with the single device-type error, whose text prints
  the value. \<open>check_fields\<close> is the code from \<open>if device_type not in DEVICE_TYPES\<close> on.
  In new-device mode \<open>device_type\<close> is whatever the record holds under \<open>type\<close>: a list
  or a dictionary cannot be hashed, so the membership test raises TypeError; any other
  value that is not one of the known strings gives the device-type error.
\<close>

definition check_fields :: "py_fmt \<Rightarrow> dict \<Rightarrow> bool \<Rightarrow> pyval \<Rightarrow> errs \<Rightarrow> exn + (bool \<times> errs)" where
  "check_fields F device_data new_device device_type errors =
     (case device_type of
        PList xs \<Rightarrow> Inl TypeError
      | PDict kvs \<Rightarrow> Inl TypeError
      | PStr t \<Rightarrow>
          if t \<notin> DEVICE_TYPES then device_type_error F device_type
          else (case for_each (field_body F device_data new_device t) (map fst device_data) errors of
                  Inl e \<Rightarrow> Inl e
                | Inr errors' \<Rightarrow> if errors' \<noteq> [] then Inr (False, errors') else Inr (True, []))
      | _ \<Rightarrow> device_type_error F device_type)"

definition validate_device_data :: "py_fmt \<Rightarrow> dict \<Rightarrow> bool \<Rightarrow> string \<Rightarrow> exn + (bool \<times> errs)" where
  "validate_device_data F device_data new_device device_type =
     (if new_device then
        (if keys device_data \<noteq> DEVICE_PARAMETERS
         then Inr (False, [Some (shape_error F device_data)])
         else (case map_of device_data ''type'' of
                 None \<Rightarrow> Inl KeyError
               | Some t \<Rightarrow> check_fields F device_data new_device t []))
      else
        (let errors = [];
             errors = (if ''id'' \<in> keys device_data
                       then errors @ [Some (''Cannot update read-only parameter '' @ quoted ''id'')]
                       else errors);
             errors = (if ''type'' \<in> keys device_data
                       then errors @ [Some (''Cannot update read-only parameter '' @ quoted ''type'')]
                       else errors)
         in if errors \<noteq> [] then Inr (False, errors)
            else check_fields F device_data new_device (PStr device_type) errors))"

section \<open>Notions used to state the properties\<close>

text \<open>
  A fixed formatter for the concrete runs below: it elides the content of sets, floats and
  containers.
\<close>

definition sample_fmt :: py_fmt where
  "sample_fmt = \<lparr>fmt_set = (\<lambda>S. ''{...}''), fmt_other = (\<lambda>v. ''...'')\<rparr>"

text \<open>
  The dictionary with \<open>v\<close> stored under every entry of key \<open>k\<close>, and the record whose
  \<open>parameters\<close> dictionary is changed in this way.
\<close>

definition set_value :: "string \<Rightarrow> pyval \<Rightarrow> dict \<Rightarrow> dict" where
  "set_value k v ps = map (\<lambda>(a, y). if a = k then (a, v) else (a, y)) ps"

definition set_parameter_value :: "string \<Rightarrow> pyval \<Rightarrow> pyval \<Rightarrow> pyval" where
  "set_parameter_value k v p = (case p of PDict ps \<Rightarrow> PDict (set_value k v ps) | _ \<Rightarrow> p)"

definition with_parameter :: "string \<Rightarrow> pyval \<Rightarrow> dict \<Rightarrow> dict" where
  "with_parameter k v d =
     map (\<lambda>(f, x). if f = ''parameters'' then (f, set_parameter_value k v x) else (f, x)) d"

text \<open>
  The allowed-parameter set and the wording that the \<open>match\<close> on the device type uses in
  each of its cases. A device type with no case has no filter.
\<close>

definition allowed_parameters :: "string \<Rightarrow> string set" where
  "allowed_parameters t =
     (if t = ''door_lock'' then LOCK_PARAMETERS
      else if t = ''curtain'' then CURTAIN_PARAMETERS
      else if t = ''air_conditioner'' then AC_PARAMETERS
      else if t = ''water_heater'' then WATER_HEATER_PARAMETERS
      else if t = ''light'' then LIGHT_PARAMETERS
      else UNIV)"

definition device_label :: "string \<Rightarrow> string" where
  "device_label t =
     (if t = ''door_lock'' then ''door lock''
      else if t = ''curtain'' then ''curtain''
      else if t = ''air_conditioner'' then ''air conditioner''
      else if t = ''water_heater'' then ''water heater''
      else t)"

text \<open>What the check of the \<open>status\<close> field appends.\<close>

definition status_errors :: "py_fmt \<Rightarrow> dict \<Rightarrow> string \<Rightarrow> errs" where
  "status_errors F d t = (case status_field F d t [] of Inl e \<Rightarrow> [] | Inr es \<Rightarrow> es)"

text \<open>
  \<open>extends a b\<close>: the list \<open>b\<close> is \<open>a\<close> followed by strings only.
\<close>

definition extends :: "errs \<Rightarrow> errs \<Rightarrow> bool" where
  "extends a b = (take (length a) b = a \<and> None \<notin> set (drop (length a) b))"

section \<open>Loops\<close>

lemma for_each_append:
  "for_each body (xs @ ys) s =
     (case for_each body xs s of Inl e \<Rightarrow> Inl e | Inr s' \<Rightarrow> for_each body ys s')"
  by (induction xs arbitrary: s) (auto split: sum.splits)

lemma for_each_cong_on:
  "(\<And>x s. x \<in> set xs \<Longrightarrow> f s x = g s x) \<Longrightarrow> for_each f xs s = for_each g xs s"
  by (induction xs arbitrary: s) (auto split: sum.splits)

lemma for_each_skip:
  "(\<And>x s. x \<in> set xs \<Longrightarrow> body s x = Inr s) \<Longrightarrow> for_each body xs s = Inr s"
  by (induction xs arbitrary: s) auto

lemma for_each_invariant:
  assumes "for_each body xs s = Inr s'" and "P s"
    and "\<And>x a b. x \<in> set xs \<Longrightarrow> P a \<Longrightarrow> body a x = Inr b \<Longrightarrow> P b"
  shows "P s'"
  using assms
proof (induction xs arbitrary: s)
  case Nil
  then show ?case by simp
next
  case (Cons x xs)
  from Cons.prems(1) obtain m where m: "body s x = Inr m" and rest: "for_each body xs m = Inr s'"
    by (auto split: sum.splits)
  have "P m" using Cons.prems(2,3) m by auto
  then show ?case using Cons.IH [OF rest] Cons.prems(3) by auto
qed

section \<open>Records that differ in the value of one parameter\<close>

lemma keys_set_value: "keys (set_value k v ps) = keys ps"
  by (induction ps) (auto simp: keys_def set_value_def)

lemma map_fst_set_value: "map fst (set_value k v ps) = map fst ps"
  by (induction ps) (auto simp: set_value_def)

lemma set_value_absent: "k \<notin> keys ps \<Longrightarrow> set_value k v ps = ps"
  by (induction ps) (auto simp: keys_def set_value_def)

lemma for_each_set_value:
  assumes "\<And>e. item e (k, v) = item e (k, v')"
  shows "for_each item (set_value k v ps) e = for_each item (set_value k v' ps) e"
proof (induction ps arbitrary: e)
  case Nil
  show ?case by (simp add: set_value_def)
next
  case (Cons p ps)
  obtain a y where p: "p = (a, y)" by (cases p)
  have ih: "\<And>e. for_each item (set_value k v ps) e = for_each item (set_value k v' ps) e"
    by (rule Cons.IH)
  show ?case
  proof (cases "a = k")
    case True
    then show ?thesis
      using assms ih by (simp add: p set_value_def split: sum.splits)
  next
    case False
    then show ?thesis
      using ih by (simp add: p set_value_def split: sum.splits)
  qed
qed

lemma match_case_set_value:
  assumes "k \<notin> allowed \<or> (\<forall>e. item e (k, v) = item e (k, v'))"
  shows "match_case F device allowed item (set_value k v ps) e
       = match_case F device allowed item (set_value k v' ps) e"
proof (cases "keys ps - allowed = {}")
  case False
  then show ?thesis
    by (simp add: match_case_def keys_set_value)
next
  case True
  show ?thesis
  proof (cases "k \<in> keys ps")
    case False
    then show ?thesis by (simp add: set_value_absent)
  next
    case inside: True
    with True have "k \<in> allowed" by blast
    with assms have "\<And>e. item e (k, v) = item e (k, v')" by blast
    then have "for_each item (set_value k v ps) e = for_each item (set_value k v' ps) e"
      by (rule for_each_set_value)
    then show ?thesis
      by (simp add: match_case_def keys_set_value)
  qed
qed


lemma match_device_type_fan_speed:
  "match_device_type F new_device t (set_value ''fan_speed'' v ps) e
   = match_device_type F new_device t (set_value ''fan_speed'' v' ps) e"
proof -
  have lock: "''fan_speed'' \<notin> LOCK_PARAMETERS" by (simp add: LOCK_PARAMETERS_def)
  have curtain: "''fan_speed'' \<notin> CURTAIN_PARAMETERS" by (simp add: CURTAIN_PARAMETERS_def)
  have water: "''fan_speed'' \<notin> WATER_HEATER_PARAMETERS" by (simp add: WATER_HEATER_PARAMETERS_def)
  have light: "''fan_speed'' \<notin> LIGHT_PARAMETERS" by (simp add: LIGHT_PARAMETERS_def)
  have ac: "\<forall>e. air_conditioner_item F new_device e (''fan_speed'', v)
               = air_conditioner_item F new_device e (''fan_speed'', v')"
    by (simp add: air_conditioner_item_def)
  show ?thesis
    unfolding match_device_type_def
    using match_case_set_value [of "''fan_speed''" LOCK_PARAMETERS, OF disjI1, OF lock]
      match_case_set_value [of "''fan_speed''" CURTAIN_PARAMETERS, OF disjI1, OF curtain]
      match_case_set_value [of "''fan_speed''" WATER_HEATER_PARAMETERS, OF disjI1, OF water]
      match_case_set_value [of "''fan_speed''" LIGHT_PARAMETERS, OF disjI1, OF light]
      match_case_set_value [of "''fan_speed''" AC_PARAMETERS, OF disjI2, OF ac]
    by simp
qed

lemma map_fst_with_parameter: "map fst (with_parameter k v d) = map fst d"
  by (induction d) (auto simp: with_parameter_def)

lemma keys_with_parameter: "keys (with_parameter k v d) = keys d"
  by (simp add: keys_def map_fst_with_parameter)

lemma map_of_with_parameter:
  "map_of (with_parameter k v d) f =
     (if f = ''parameters'' then map_option (set_parameter_value k v) (map_of d f) else map_of d f)"
  by (induction d) (auto simp: with_parameter_def)

lemma status_field_with_parameter:
  "status_field F (with_parameter k v d) t e = status_field F d t e"
  by (simp add: status_field_def map_of_with_parameter)

lemma verify_dict:
  "verify_type_and_range F p name TDict NoRange =
     (case p of PDict ps \<Rightarrow> Inr (True, None)
      | _ \<Rightarrow> Inr (False, Some (name @ '' must be a '' @ str_of_type TDict @ '', got ''
                          @ str_of_type (type_of p) @ '' instead.'')))"
  by (cases p) (simp_all add: verify_type_and_range_def)

lemma parameters_field_with_parameter:
  assumes "\<And>ps e. match_device_type F new_device t (set_value k v ps) e
                  = match_device_type F new_device t (set_value k v' ps) e"
  shows "parameters_field F (with_parameter k v d) new_device t e
       = parameters_field F (with_parameter k v' d) new_device t e"
proof (cases "map_of d ''parameters''")
  case None
  then show ?thesis
    by (simp add: parameters_field_def map_of_with_parameter)
next
  case (Some p)
  then show ?thesis
    using assms
    by (cases p) (simp_all add: parameters_field_def map_of_with_parameter verify_dict
        set_parameter_value_def)
qed

lemma validate_with_parameter:
  assumes "\<And>t ps e. match_device_type F new_device t (set_value k v ps) e
                    = match_device_type F new_device t (set_value k v' ps) e"
  shows "validate_device_data F (with_parameter k v d) new_device device_type
       = validate_device_data F (with_parameter k v' d) new_device device_type"
proof -
  have body: "field_body F (with_parameter k v d) new_device t e f
            = field_body F (with_parameter k v' d) new_device t e f" for t e f
    using parameters_field_with_parameter [of F new_device t k v v' d, OF assms]
    by (simp add: field_body_def status_field_with_parameter split: sum.splits)
  have loop: "for_each (field_body F (with_parameter k v d) new_device t) fs e
            = for_each (field_body F (with_parameter k v' d) new_device t) fs e" for t fs e
    by (rule for_each_cong_on) (rule body)
  have fields: "check_fields F (with_parameter k v d) new_device x e
              = check_fields F (with_parameter k v' d) new_device x e" for x e
    by (cases x) (simp_all add: check_fields_def loop map_fst_with_parameter)
  have shape: "shape_error F (with_parameter k v d) = shape_error F (with_parameter k v' d)"
    by (simp add: shape_error_def keys_with_parameter)
  show ?thesis
  proof (cases new_device)
    case True
    then show ?thesis
      using fields shape
      by (simp add: validate_device_data_def keys_with_parameter map_of_with_parameter
          split: option.splits)
  next
    case False
    then show ?thesis
      using fields
      by (simp add: validate_device_data_def keys_with_parameter)
  qed
qed

section \<open>The error list only grows, and by strings\<close>

lemma extends_iff: "extends a b \<longleftrightarrow> (\<exists>es. b = a @ es \<and> None \<notin> set es)"
proof
  assume "extends a b"
  then have "b = a @ drop (length a) b \<and> None \<notin> set (drop (length a) b)"
    unfolding extends_def by (metis append_take_drop_id)
  then show "\<exists>es. b = a @ es \<and> None \<notin> set es" by blast
next
  assume "\<exists>es. b = a @ es \<and> None \<notin> set es"
  then show "extends a b" by (auto simp: extends_def)
qed

lemma extends_refl: "extends a a"
  by (simp add: extends_def)

lemma extends_trans: "extends a b \<Longrightarrow> extends b c \<Longrightarrow> extends a c"
  by (auto simp: extends_iff)

lemma extends_snoc: "extends a (a @ [Some m])"
  by (simp add: extends_def)

lemma extends_subset: "extends a b \<Longrightarrow> set a \<subseteq> set b"
  by (auto simp: extends_iff)

lemma extends_strings: "extends a b \<Longrightarrow> None \<notin> set a \<Longrightarrow> None \<notin> set b"
  by (auto simp: extends_iff)

lemma verify_reason:
  "verify_type_and_range F v name cls vr = Inr (False, reason) \<Longrightarrow> reason \<noteq> None"
  by (auto simp: verify_type_and_range_def
      split: if_splits sum.splits value_range.splits pyval.splits)

lemma append_unless_success_extends:
  "append_unless_success a (verify_type_and_range F v name cls vr) = Inr b \<Longrightarrow> extends a b"
proof -
  assume h: "append_unless_success a (verify_type_and_range F v name cls vr) = Inr b"
  then obtain ok reason where r: "verify_type_and_range F v name cls vr = Inr (ok, reason)"
    by (auto simp: append_unless_success_def split: sum.splits)
  show ?thesis
  proof (cases ok)
    case True
    then show ?thesis using h r by (simp add: append_unless_success_def extends_refl)
  next
    case False
    with r have "verify_type_and_range F v name cls vr = Inr (False, reason)" by simp
    then have "reason \<noteq> None" by (rule verify_reason)
    then obtain m where "reason = Some m" by blast
    then show ?thesis using h r False by (auto simp: append_unless_success_def extends_snoc)
  qed
qed

lemma for_each_extends:
  assumes "for_each body xs a = Inr b"
    and "\<And>x s s'. x \<in> set xs \<Longrightarrow> body s x = Inr s' \<Longrightarrow> extends s s'"
  shows "extends a b"
proof (rule for_each_invariant [where P = "extends a", OF assms(1)])
  show "extends a a" by (rule extends_refl)
next
  fix x s s' assume "x \<in> set xs" "extends a s" "body s x = Inr s'"
  then show "extends a s'" using assms(2) extends_trans by blast
qed

lemma door_lock_item_extends: "door_lock_item F nd a kv = Inr b \<Longrightarrow> extends a b"
  by (cases kv)
    (auto simp: door_lock_item_def extends_refl extends_snoc
      dest: append_unless_success_extends split: if_splits)

lemma curtain_item_extends: "curtain_item F nd a kv = Inr b \<Longrightarrow> extends a b"
  by (cases kv)
    (auto simp: curtain_item_def extends_refl dest: append_unless_success_extends split: if_splits)

lemma air_conditioner_item_extends: "air_conditioner_item F nd a kv = Inr b \<Longrightarrow> extends a b"
  by (cases kv)
    (auto simp: air_conditioner_item_def extends_refl
      dest: append_unless_success_extends split: if_splits)

lemma water_heater_item_extends: "water_heater_item F nd a kv = Inr b \<Longrightarrow> extends a b"
  by (cases kv)
    (auto simp: water_heater_item_def extends_refl
      dest: append_unless_success_extends split: if_splits)

lemma light_item_extends: "light_item F nd a kv = Inr b \<Longrightarrow> extends a b"
  by (cases kv)
    (auto simp: light_item_def extends_refl extends_snoc
      dest: append_unless_success_extends split: if_splits)

lemma match_case_extends:
  assumes "match_case F device allowed item ps a = Inr b"
    and "\<And>s kv s'. item s kv = Inr s' \<Longrightarrow> extends s s'"
  shows "extends a b"
proof (cases "keys ps - allowed = {}")
  case True
  with assms(1) have "for_each item ps a = Inr b"
    by (simp add: match_case_def)
  then show ?thesis using assms(2) by (rule for_each_extends)
next
  case False
  with assms(1) show ?thesis
    by (auto simp: match_case_def extends_snoc)
qed

lemma match_device_type_extends:
  "match_device_type F nd t ps a = Inr b \<Longrightarrow> extends a b"
  unfolding match_device_type_def
  by (auto split: if_splits simp: extends_refl
      elim: match_case_extends
      dest: door_lock_item_extends curtain_item_extends air_conditioner_item_extends
        water_heater_item_extends light_item_extends)


lemma parameters_field_extends:
  assumes "parameters_field F d nd t a = Inr b"
  shows "extends a b"
proof (cases "t \<in> DEVICE_TYPES")
  case False
  with assms show ?thesis by (simp add: parameters_field_def extends_refl)
next
  case True
  with assms obtain p where p: "map_of d ''parameters'' = Some p"
    by (auto simp: parameters_field_def split: option.splits)
  show ?thesis
  proof (cases p)
    case (PDict ps)
    with assms True p have "match_device_type F nd t ps a = Inr b"
      by (simp add: parameters_field_def verify_dict)
    then show ?thesis by (rule match_device_type_extends)
  qed (use assms True p in \<open>auto simp: parameters_field_def verify_dict extends_snoc\<close>)
qed

lemma status_field_extends: "status_field F d t a = Inr b \<Longrightarrow> extends a b"
  by (auto simp: status_field_def extends_refl dest: append_unless_success_extends
      split: if_splits option.splits)

lemma field_body_extends:
  assumes "field_body F d nd t a f = Inr b"
  shows "extends a b"
proof -
  from assms obtain m where
    m: "(if f = ''status'' then status_field F d t a else Inr a) = Inr m" and
    b: "(if f = ''parameters'' then parameters_field F d nd t m else Inr m) = Inr b"
    by (auto simp: field_body_def split: sum.splits)
  from m have "extends a m"
    by (auto split: if_splits simp: extends_refl dest: status_field_extends)
  moreover from b have "extends m b"
    by (auto split: if_splits simp: extends_refl dest: parameters_field_extends)
  ultimately show ?thesis by (rule extends_trans)
qed

lemma check_fields_strings:
  assumes "check_fields F d nd x [] = Inr (ok, errors)"
  shows "None \<notin> set errors"
proof (cases x)
  case (PStr t)
  show ?thesis
  proof (cases "t \<in> DEVICE_TYPES")
    case False
    with assms PStr show ?thesis
      by (auto simp: check_fields_def device_type_error_def split: sum.splits)
  next
    case True
    with assms PStr obtain es where
      es: "for_each (field_body F d nd t) (map fst d) [] = Inr es" and
      res: "errors = (if es \<noteq> [] then es else [])"
      by (auto simp: check_fields_def split: sum.splits if_splits)
    from es have "extends [] es"
      by (rule for_each_extends) (rule field_body_extends)
    then have "None \<notin> set es" by (simp add: extends_def)
    with res show ?thesis by simp
  qed
qed (use assms in \<open>auto simp: check_fields_def device_type_error_def split: sum.splits\<close>)

lemma errors_are_strings:
  assumes "validate_device_data F d nd dt = Inr (ok, errors)"
  shows "None \<notin> set errors"
proof (cases nd)
  case True
  with assms show ?thesis
    by (auto simp: validate_device_data_def split: if_splits option.splits
        dest: check_fields_strings)
next
  case False
  with assms show ?thesis
    by (auto simp: validate_device_data_def Let_def split: if_splits dest: check_fields_strings)
qed

section \<open>Read-only parameters in update mode\<close>

lemma match_device_type_set_value:
  assumes "k \<notin> LOCK_PARAMETERS \<or> (\<forall>e. door_lock_item F nd e (k, v) = door_lock_item F nd e (k, v'))"
    and "k \<notin> CURTAIN_PARAMETERS \<or> (\<forall>e. curtain_item F nd e (k, v) = curtain_item F nd e (k, v'))"
    and "k \<notin> AC_PARAMETERS
         \<or> (\<forall>e. air_conditioner_item F nd e (k, v) = air_conditioner_item F nd e (k, v'))"
    and "k \<notin> WATER_HEATER_PARAMETERS
         \<or> (\<forall>e. water_heater_item F nd e (k, v) = water_heater_item F nd e (k, v'))"
    and "k \<notin> LIGHT_PARAMETERS \<or> (\<forall>e. light_item F nd e (k, v) = light_item F nd e (k, v'))"
  shows "match_device_type F nd t (set_value k v ps) e = match_device_type F nd t (set_value k v' ps) e"
  unfolding match_device_type_def
  using match_case_set_value [OF assms(1)] match_case_set_value [OF assms(2)]
    match_case_set_value [OF assms(3)] match_case_set_value [OF assms(4)]
    match_case_set_value [OF assms(5)]
  by simp

lemma match_device_type_read_only:
  assumes "k = ''is_dimmable'' \<or> k = ''dynamic_color'' \<or> k = ''auto_lock_enabled''"
  shows "match_device_type F False t (set_value k v ps) e
       = match_device_type F False t (set_value k v' ps) e"
proof (rule match_device_type_set_value)
  show "k \<notin> LOCK_PARAMETERS
        \<or> (\<forall>e. door_lock_item F False e (k, v) = door_lock_item F False e (k, v'))"
    using assms by (auto simp: door_lock_item_def)
  show "k \<notin> CURTAIN_PARAMETERS
        \<or> (\<forall>e. curtain_item F False e (k, v) = curtain_item F False e (k, v'))"
    using assms by (auto simp: CURTAIN_PARAMETERS_def)
  show "k \<notin> AC_PARAMETERS
        \<or> (\<forall>e. air_conditioner_item F False e (k, v) = air_conditioner_item F False e (k, v'))"
    using assms by (auto simp: AC_PARAMETERS_def)
  show "k \<notin> WATER_HEATER_PARAMETERS
        \<or> (\<forall>e. water_heater_item F False e (k, v) = water_heater_item F False e (k, v'))"
    using assms by (auto simp: WATER_HEATER_PARAMETERS_def)
  show "k \<notin> LIGHT_PARAMETERS \<or> (\<forall>e. light_item F False e (k, v) = light_item F False e (k, v'))"
    using assms by (auto simp: light_item_def)
qed

lemma for_each_member:
  assumes run: "for_each body xs s = Inr s'" and x: "x \<in> set xs"
    and ext: "\<And>a y b. body a y = Inr b \<Longrightarrow> extends a b"
    and hit: "\<And>a b. body a x = Inr b \<Longrightarrow> m \<in> set b"
  shows "m \<in> set s'"
proof -
  from x obtain ys zs where xs: "xs = ys @ x # zs"
    by (auto dest: split_list)
  from run obtain s1 s2 where
    "for_each body ys s = Inr s1" and at: "body s1 x = Inr s2" and rest: "for_each body zs s2 = Inr s'"
    unfolding xs by (auto simp: for_each_append split: sum.splits)
  from at have "m \<in> set s2" by (rule hit)
  moreover from rest have "extends s2 s'"
    by (rule for_each_extends) (rule ext)
  ultimately show ?thesis
    using extends_subset by blast
qed

lemma read_only_item:
  assumes "(t = ''light'' \<and> (k = ''is_dimmable'' \<or> k = ''dynamic_color''))
           \<or> (t = ''door_lock'' \<and> k = ''auto_lock_enabled'')"
  shows "(if t = ''light'' then light_item F False errors (k, v)
          else door_lock_item F False errors (k, v))
         = Inr (errors @ [Some (''Cannot update read-only parameter '' @ quoted k @ ''.'')])"
proof -
  from assms consider
    (dim) "t = ''light''" "k = ''is_dimmable''" |
    (dyn) "t = ''light''" "k = ''dynamic_color''" |
    (lock) "t = ''door_lock''" "k = ''auto_lock_enabled''"
    by blast
  then show ?thesis
  proof cases
    case dim
    then show ?thesis by (simp add: light_item_def read_only_error_def)
  next
    case dyn
    then show ?thesis by (simp add: light_item_def read_only_error_def)
  next
    case lock
    then show ?thesis by (simp add: door_lock_item_def read_only_error_def)
  qed
qed

lemma match_device_type_allowed:
  assumes "t = ''light'' \<or> t = ''door_lock''"
    and "keys ps \<subseteq> allowed_parameters t"
  shows "match_device_type F False t ps a =
     for_each (\<lambda>e kv. if t = ''light'' then light_item F False e kv
                      else door_lock_item F False e kv) ps a"
proof -
  from assms(2) have none: "keys ps - allowed_parameters t = {}" by blast
  from assms(1) show ?thesis
  proof
    assume t: "t = ''light''"
    then have "allowed_parameters t = LIGHT_PARAMETERS"
      by (simp add: allowed_parameters_def)
    with none have "keys ps - LIGHT_PARAMETERS = {}" by simp
    then show ?thesis
      by (simp add: t match_device_type_def match_case_def)
  next
    assume t: "t = ''door_lock''"
    then have "allowed_parameters t = LOCK_PARAMETERS"
      by (simp add: allowed_parameters_def)
    with none have "keys ps - LOCK_PARAMETERS = {}" by simp
    then show ?thesis
      by (simp add: t match_device_type_def match_case_def)
  qed
qed

lemma read_only_reported:
  assumes ro: "(t = ''light'' \<and> (k = ''is_dimmable'' \<or> k = ''dynamic_color''))
           \<or> (t = ''door_lock'' \<and> k = ''auto_lock_enabled'')"
    and no_id: "''id'' \<notin> keys d" and no_type: "''type'' \<notin> keys d"
    and params: "map_of d ''parameters'' = Some (PDict ps)"
    and allowed: "keys ps \<subseteq> allowed_parameters t"
    and present: "k \<in> keys ps"
    and result: "validate_device_data F d False t = Inr (ok, errs)"
  shows "\<not> ok \<and> Some (''Cannot update read-only parameter '' @ quoted k @ ''.'') \<in> set errs"
proof -
  let ?m = "Some (''Cannot update read-only parameter '' @ quoted k @ ''.'')"
  let ?item = "\<lambda>e kv. if t = ''light'' then light_item F False e kv else door_lock_item F False e kv"
  have kind: "t = ''light'' \<or> t = ''door_lock''"
    using ro by blast
  then have known: "t \<in> DEVICE_TYPES"
    by (auto simp: DEVICE_TYPES_def)
  from result no_id no_type known obtain es where
    loop: "for_each (field_body F d False t) (map fst d) [] = Inr es" and
    res: "ok = (es = [])" "errs = es"
    by (auto simp: validate_device_data_def check_fields_def split: sum.splits if_splits)
  from present obtain v where kv: "(k, v) \<in> set ps"
    by (auto simp: keys_def)
  have item_ext: "extends a b" if "?item a y = Inr b" for a y b
    using that by (auto split: if_splits dest: light_item_extends door_lock_item_extends)
  have item_hit: "?m \<in> set b" if "?item a (k, v) = Inr b" for a b
    using that read_only_item [OF ro, of F a v] by auto
  have field_hit: "?m \<in> set b" if "field_body F d False t a ''parameters'' = Inr b" for a b
  proof -
    from that have "for_each ?item ps a = Inr b"
      using known params match_device_type_allowed [OF kind allowed, of F a]
      by (simp add: field_body_def parameters_field_def verify_dict)
    then show ?thesis
      using kv item_ext item_hit by (rule for_each_member)
  qed
  have "''parameters'' \<in> set (map fst d)"
    using params by (auto dest: map_of_SomeD intro: rev_image_eqI)
  with loop have "?m \<in> set es"
    using field_body_extends field_hit by (rule for_each_member)
  with res show ?thesis by auto
qed

section \<open>A \<open>parameters\<close> dictionary with a key that is not allowed\<close>

lemma device_type_cases:
  assumes "t \<in> DEVICE_TYPES"
  obtains (light) "t = ''light''" | (water) "t = ''water_heater''" | (ac) "t = ''air_conditioner''" |
    (lock) "t = ''door_lock''" | (curtain) "t = ''curtain''"
  using assms unfolding DEVICE_TYPES_def by (elim insertE emptyE)

lemma match_device_type_disallowed:
  assumes known: "t \<in> DEVICE_TYPES" and left: "keys ps - allowed_parameters t \<noteq> {}"
  shows "match_device_type F nd t ps e =
     Inr (e @ [Some (disallowed_error F (device_label t) (keys ps - allowed_parameters t)
                       (allowed_parameters t))])"
proof -
  from known show ?thesis
  proof (cases rule: device_type_cases)
    case light
    then have eq: "allowed_parameters t = LIGHT_PARAMETERS" "device_label t = ''light''"
      by (simp_all add: allowed_parameters_def device_label_def)
    with left have "keys ps - LIGHT_PARAMETERS \<noteq> {}" by simp
    then show ?thesis
      unfolding eq by (simp add: light match_device_type_def match_case_def)
  next
    case water
    then have eq: "allowed_parameters t = WATER_HEATER_PARAMETERS" "device_label t = ''water heater''"
      by (simp_all add: allowed_parameters_def device_label_def)
    with left have "keys ps - WATER_HEATER_PARAMETERS \<noteq> {}" by simp
    then show ?thesis
      unfolding eq by (simp add: water match_device_type_def match_case_def)
  next
    case ac
    then have eq: "allowed_parameters t = AC_PARAMETERS" "device_label t = ''air conditioner''"
      by (simp_all add: allowed_parameters_def device_label_def)
    with left have "keys ps - AC_PARAMETERS \<noteq> {}" by simp
    then show ?thesis
      unfolding eq by (simp add: ac match_device_type_def match_case_def)
  next
    case lock
    then have eq: "allowed_parameters t = LOCK_PARAMETERS" "device_label t = ''door lock''"
      by (simp_all add: allowed_parameters_def device_label_def)
    with left have "keys ps - LOCK_PARAMETERS \<noteq> {}" by simp
    then show ?thesis
      unfolding eq by (simp add: lock match_device_type_def match_case_def)
  next
    case curtain
    then have eq: "allowed_parameters t = CURTAIN_PARAMETERS" "device_label t = ''curtain''"
      by (simp_all add: allowed_parameters_def device_label_def)
    with left have "keys ps - CURTAIN_PARAMETERS \<noteq> {}" by simp
    then show ?thesis
      unfolding eq by (simp add: curtain match_device_type_def match_case_def)
  qed
qed

lemma parameters_field_disallowed:
  assumes "t \<in> DEVICE_TYPES" and "map_of d ''parameters'' = Some (PDict ps)"
    and "keys ps - allowed_parameters t \<noteq> {}"
  shows "parameters_field F d nd t e =
     Inr (e @ [Some (disallowed_error F (device_label t) (keys ps - allowed_parameters t)
                       (allowed_parameters t))])"
  using assms(1,2) match_device_type_disallowed [OF assms(1,3)]
  by (simp add: parameters_field_def verify_dict)

lemma verify_str_returns: "\<exists>ok reason. verify_type_and_range F v name TStr vr = Inr (ok, reason)"
proof (cases v)
  case (PStr s)
  then show ?thesis
    by (cases vr) (auto simp: verify_type_and_range_def)
qed (auto simp: verify_type_and_range_def)

lemma append_unless_success_str:
  "append_unless_success e (verify_type_and_range F v name TStr vr) =
     Inr (e @ (case append_unless_success [] (verify_type_and_range F v name TStr vr) of
                 Inl x \<Rightarrow> [] | Inr es \<Rightarrow> es))"
proof -
  obtain ok reason where "verify_type_and_range F v name TStr vr = Inr (ok, reason)"
    using verify_str_returns by blast
  then show ?thesis
    by (simp add: append_unless_success_def)
qed

lemma status_field_appends:
  assumes "t \<in> DEVICE_TYPES" and "''status'' \<in> keys d"
  shows "status_field F d t e = Inr (e @ status_errors F d t)"
proof -
  from assms(2) obtain v where v: "map_of d ''status'' = Some v"
    by (cases "map_of d ''status''") (auto simp: keys_def map_of_eq_None_iff)
  show ?thesis
    using assms(1) v append_unless_success_str [of e F v "quoted ''status''"]
    by (simp add: status_field_def status_errors_def)
qed

lemma status_only_fields:
  assumes "t \<in> DEVICE_TYPES" and "''parameters'' \<notin> set fs" and "set fs \<subseteq> keys d"
  shows "\<exists>E. for_each (field_body F d nd t) fs e = Inr (e @ E) \<and> set E \<subseteq> set (status_errors F d t)"
  using assms(2,3)
proof (induction fs arbitrary: e)
  case Nil
  show ?case by simp
next
  case (Cons f fs)
  from Cons.prems have f: "f \<noteq> ''parameters''" "f \<in> keys d"
    and rest: "''parameters'' \<notin> set fs" "set fs \<subseteq> keys d"
    by auto
  have "\<exists>E. field_body F d nd t e f = Inr (e @ E) \<and> set E \<subseteq> set (status_errors F d t)"
  proof (cases "f = ''status''")
    case True
    with f(2) have "status_field F d t e = Inr (e @ status_errors F d t)"
      using assms(1) by (simp add: status_field_appends)
    with True show ?thesis by (simp add: field_body_def)
  next
    case False
    with f(1) have "field_body F d nd t e f = Inr (e @ [])" by (simp add: field_body_def)
    moreover have "set [] \<subseteq> set (status_errors F d t)" by simp
    ultimately show ?thesis by blast
  qed
  then obtain E1 where s1: "field_body F d nd t e f = Inr (e @ E1)"
    and E1: "set E1 \<subseteq> set (status_errors F d t)"
    by blast
  from Cons.IH [OF rest, of "e @ E1"] obtain E2 where
    s2: "for_each (field_body F d nd t) fs (e @ E1) = Inr ((e @ E1) @ E2)"
    and E2: "set E2 \<subseteq> set (status_errors F d t)"
    by blast
  have "for_each (field_body F d nd t) (f # fs) e = Inr (e @ (E1 @ E2))"
    using s1 s2 by simp
  moreover have "set (E1 @ E2) \<subseteq> set (status_errors F d t)"
    using E1 E2 by simp
  ultimately show ?case by blast
qed


lemma fields_with_disallowed_parameters:
  assumes known: "t \<in> DEVICE_TYPES"
    and dist: "distinct (map fst d)"
    and params: "map_of d ''parameters'' = Some (PDict ps)"
    and left: "keys ps - allowed_parameters t \<noteq> {}"
  shows "\<exists>before after.
           for_each (field_body F d nd t) (map fst d) [] =
             Inr (before @ [Some (disallowed_error F (device_label t)
                                    (keys ps - allowed_parameters t) (allowed_parameters t))] @ after)
           \<and> set (before @ after) \<subseteq> set (status_errors F d t)"
proof -
  let ?dis = "Some (disallowed_error F (device_label t) (keys ps - allowed_parameters t)
                      (allowed_parameters t))"
  from params have "(''parameters'', PDict ps) \<in> set d"
    by (rule map_of_SomeD)
  then obtain d1 d2 where d: "d = d1 @ (''parameters'', PDict ps) # d2"
    by (auto dest: split_list)
  have fields: "map fst d = map fst d1 @ ''parameters'' # map fst d2"
    by (simp add: d)
  from dist have out: "''parameters'' \<notin> set (map fst d1)" "''parameters'' \<notin> set (map fst d2)"
    unfolding fields by auto
  have sub: "set (map fst d1) \<subseteq> keys d" "set (map fst d2) \<subseteq> keys d"
    by (auto simp: keys_def d)
  obtain E1 where
    s1: "for_each (field_body F d nd t) (map fst d1) [] = Inr ([] @ E1)"
    and E1: "set E1 \<subseteq> set (status_errors F d t)"
    using status_only_fields [OF known out(1) sub(1)] by blast
  have s2: "field_body F d nd t E1 ''parameters'' = Inr (E1 @ [?dis])"
    using parameters_field_disallowed [OF known params left]
    by (simp add: field_body_def)
  obtain E2 where
    s3: "for_each (field_body F d nd t) (map fst d2) (E1 @ [?dis]) = Inr ((E1 @ [?dis]) @ E2)"
    and E2: "set E2 \<subseteq> set (status_errors F d t)"
    using status_only_fields [OF known out(2) sub(2)] by blast
  have "for_each (field_body F d nd t) (map fst d) [] = Inr (E1 @ [?dis] @ E2)"
    unfolding fields using s1 s2 s3 by (simp add: for_each_append)
  moreover have "set (E1 @ E2) \<subseteq> set (status_errors F d t)"
    using E1 E2 by simp
  ultimately show ?thesis by blast
qed

section \<open>The digit limit\<close>

text \<open>
  An integer has more than \<open>k\<close> decimal digits exactly when its absolute value is at
  least \<open>10 ^ k\<close>.
\<close>

lemma str_of_nat_long: "10 ^ k \<le> n \<Longrightarrow> k < length (str_of_nat n)"
proof (induction k arbitrary: n)
  case 0
  show ?case by (subst str_of_nat.simps) simp
next
  case (Suc k)
  from Suc.prems have prod: "10 ^ k * 10 \<le> n"
    by (simp add: mult.commute)
  have "(1::nat) \<le> 10 ^ k"
    by simp
  with prod have big: "10 \<le> n"
    by linarith
  from prod have "10 ^ k \<le> n div 10"
    by (simp add: less_eq_div_iff_mult_less_eq)
  then have "k < length (str_of_nat (n div 10))"
    by (rule Suc.IH)
  then show ?case
    using big by (subst str_of_nat.simps) simp
qed

lemma str_of_nat_short: "0 < k \<Longrightarrow> n < 10 ^ k \<Longrightarrow> length (str_of_nat n) \<le> k"
proof (induction k arbitrary: n)
  case 0
  then show ?case by simp
next
  case (Suc k)
  show ?case
  proof (cases "n < 10")
    case True
    then show ?thesis by (subst str_of_nat.simps) simp
  next
    case False
    with Suc.prems have "0 < k"
      by (cases k) auto
    moreover from Suc.prems have "n div 10 < 10 ^ k"
      by (simp add: less_mult_imp_div_less mult.commute)
    ultimately have "length (str_of_nat (n div 10)) \<le> k"
      by (rule Suc.IH)
    then show ?thesis
      using False by (subst str_of_nat.simps) simp
  qed
qed

lemma digit_count_limit: "max_str_digits < digit_count i \<longleftrightarrow> 10 ^ max_str_digits \<le> \<bar>i\<bar>"
proof
  assume long: "max_str_digits < digit_count i"
  show "10 ^ max_str_digits \<le> \<bar>i\<bar>"
  proof (rule ccontr)
    assume "\<not> 10 ^ max_str_digits \<le> \<bar>i\<bar>"
    then have "nat \<bar>i\<bar> < 10 ^ max_str_digits"
      by (simp add: nat_less_iff)
    moreover have "0 < max_str_digits"
      by (simp add: max_str_digits_def)
    ultimately have "length (str_of_nat (nat \<bar>i\<bar>)) \<le> max_str_digits"
      using str_of_nat_short by blast
    with long show False
      by (simp add: digit_count_def)
  qed
next
  assume "10 ^ max_str_digits \<le> \<bar>i\<bar>"
  then have "10 ^ max_str_digits \<le> nat \<bar>i\<bar>"
    by (simp add: le_nat_iff)
  then show "max_str_digits < digit_count i"
    unfolding digit_count_def by (rule str_of_nat_long)
qed

lemma digit_count_small: "\<bar>i\<bar> < 10000 \<Longrightarrow> digit_count i \<le> max_str_digits"
proof -
  assume small: "\<bar>i\<bar> < 10000"
  have "(4::nat) \<le> max_str_digits"
    by (simp add: max_str_digits_def)
  then have "(10::int) ^ 4 \<le> 10 ^ max_str_digits"
    by (rule power_increasing) simp
  with small have "\<not> 10 ^ max_str_digits \<le> \<bar>i\<bar>"
    by simp
  then show ?thesis
    using digit_count_limit [of i] by simp
qed




text \<open>Some strings as \<open>int\<close> reads them.\<close>

lemma int_of_str_examples:
  "int_of_str '' 12 '' = Some 12"
  "int_of_str ''-1_0'' = Some (- 10)"
  "int_of_str ''1__0'' = None"
  "int_of_str [CHR 0x1C, CHR ''5''] = None"
  "int_of_str [CHR 0x85, CHR ''5'', CHR 0xA0] = Some 5"
  "int_of_str ''abc'' = None"
  by code_simp+

lemma configured_bounds_within_limit:
  "digit_count MIN_WATER_TEMP \<le> max_str_digits" "digit_count MAX_WATER_TEMP \<le> max_str_digits"
  "digit_count MIN_AC_TEMP \<le> max_str_digits" "digit_count MAX_AC_TEMP \<le> max_str_digits"
  "digit_count MIN_BRIGHTNESS \<le> max_str_digits" "digit_count MAX_BRIGHTNESS \<le> max_str_digits"
  "digit_count MIN_POSITION \<le> max_str_digits" "digit_count MAX_POSITION \<le> max_str_digits"
  "digit_count MIN_BATTERY \<le> max_str_digits" "digit_count MAX_BATTERY \<le> max_str_digits"
  by (simp_all add: digit_count_small MIN_WATER_TEMP_def MAX_WATER_TEMP_def MIN_AC_TEMP_def
      MAX_AC_TEMP_def MIN_BRIGHTNESS_def MAX_BRIGHTNESS_def MIN_POSITION_def MAX_POSITION_def
      MIN_BATTERY_def MAX_BATTERY_def)

section \<open>Properties of the primitive checker\<close>




text \<open>
  C10. With expected type \<open>int\<close> a boolean is coerced, \<open>True\<close> to 1 and \<open>False\<close> to 0:
  without bounds the check passes, with bounds it passes exactly when the coerced value
  lies within them, and otherwise the outcome is that of an integer out of range: the
  range message (or ValueError when a bound is too long to print), never a type mismatch.
  The configured bounds are all short enough to print (\<open>configured_bounds_within_limit\<close>).
\<close>

theorem verify_int_accepts_bool:
  "verify_type_and_range F (PBool b) label TInt NoRange = Inr (True, None)
   \<and> verify_type_and_range F (PBool b) label TInt (Bounds minimum maximum) =
       (if minimum \<le> (if b then 1 else 0) \<and> (if b then 1 else 0) \<le> maximum then Inr (True, None)
        else if max_str_digits < digit_count minimum \<or> max_str_digits < digit_count maximum
        then Inl ValueError
        else Inr (False, Some (label @ '' must be between '' @ str_of_int minimum @ '' and ''
                                @ str_of_int maximum @ '', got '' @ str_of_int (if b then 1 else 0)
                                @ '' instead.'')))"
proof -
  have small: "digit_count (if b then 1 else 0) \<le> max_str_digits"
    by (simp add: digit_count_small)
  have coerced: "py_int (PBool b) = Inr (if b then 1 else 0)"
    by simp
  show ?thesis
    using small
    by (simp only: verify_type_and_range_def coerced)
      (auto simp: range_error_def format_int_def)
qed

section \<open>Properties of the device validator\<close>

text \<open>
  C1. No exception should leave \<open>validate_device_data\<close>: a value that cannot be coerced to
  an integer should be reported in the returned list. This fails for the update
  \<open>{"parameters": {"battery_level": None}}\<close> of a door lock: \<open>int(None)\<close> raises
  TypeError, the handler around it catches ValueError only, and the exception leaves the
  validator.
\<close>

theorem none_battery_level_raises:
  "validate_device_data F [(''parameters'', PDict [(''battery_level'', PNone)])] False ''door_lock''
     = Inl TypeError"
  by (simp add: validate_device_data_def check_fields_def keys_def DEVICE_TYPES_def field_body_def
      parameters_field_def verify_type_and_range_def match_device_type_def match_case_def
      LOCK_PARAMETERS_def door_lock_item_def append_unless_success_def)

text \<open>
  More runs of this kind: an infinite float for an integer parameter raises
  OverflowError, a list under \<open>type\<close> cannot be looked up in \<open>DEVICE_TYPES\<close>, and an
  integer under \<open>type\<close> that is too long to print raises ValueError in the f-string of
  the device-type error.
\<close>

lemma infinite_position_raises:
  "validate_device_data F [(''parameters'', PDict [(''position'', PFloat FPosInf)])] False ''curtain''
     = Inl OverflowError"
  by (simp add: validate_device_data_def check_fields_def keys_def DEVICE_TYPES_def field_body_def
      parameters_field_def verify_type_and_range_def match_device_type_def match_case_def
      CURTAIN_PARAMETERS_def curtain_item_def append_unless_success_def)

lemma list_as_type_raises:
  "keys device_data = DEVICE_PARAMETERS \<Longrightarrow> map_of device_data ''type'' = Some (PList xs) \<Longrightarrow>
   validate_device_data F device_data True device_type = Inl TypeError"
  by (simp add: validate_device_data_def check_fields_def)

lemma long_int_as_type_raises:
  "keys device_data = DEVICE_PARAMETERS \<Longrightarrow> map_of device_data ''type'' = Some (PInt i) \<Longrightarrow>
   max_str_digits < digit_count i \<Longrightarrow>
   validate_device_data F device_data True device_type = Inl ValueError"
  by (simp add: validate_device_data_def check_fields_def device_type_error_def py_str_def
      format_int_def)

text \<open>
  C5. In new-device mode a record whose key set is not the canonical one returns at once
  with exactly one error, which gives the extra keys, the missing keys and the required
  keys; nothing else is checked.
\<close>

theorem new_device_wrong_keys:
  "keys device_data \<noteq> DEVICE_PARAMETERS \<Longrightarrow>
   validate_device_data F device_data True device_type =
     Inr (False,
       [Some (''Incorrect field(s) in new device: '' @ fmt_set F (keys device_data - DEVICE_PARAMETERS)
              @ '', missing field(s) in new device: '' @ fmt_set F (DEVICE_PARAMETERS - keys device_data)
              @ '', must be exactly these fields: '' @ fmt_set F DEVICE_PARAMETERS)])"
  by (simp add: validate_device_data_def shape_error_def)

theorem new_device_wrong_keys_witness:
  "keys [(''id'', PInt 1), (''colour'', PStr ''red'')] \<noteq> DEVICE_PARAMETERS
   \<and> validate_device_data sample_fmt [(''id'', PInt 1), (''colour'', PStr ''red'')] True [] =
       Inr (False,
         [Some (''Incorrect field(s) in new device: {...}, missing field(s) in new device: {...}, ''
                @ ''must be exactly these fields: {...}'')])"
proof -
  have "''colour'' \<in> keys [(''id'', PInt 1), (''colour'', PStr ''red'')]"
    by (simp add: keys_def)
  moreover have "''colour'' \<notin> DEVICE_PARAMETERS"
    by (simp add: DEVICE_PARAMETERS_def)
  ultimately have h: "keys [(''id'', PInt 1), (''colour'', PStr ''red'')] \<noteq> DEVICE_PARAMETERS"
    by blast
  show ?thesis
    using h new_device_wrong_keys [OF h, of sample_fmt "[]"] by (simp add: sample_fmt_def)
qed

text \<open>
  C6. In update mode a record holding \<open>id\<close> gets the error for \<open>id\<close>, one holding
  \<open>type\<close> gets the error for \<open>type\<close>, one holding both gets both, in this order, and
  the call returns with these errors alone.
\<close>

theorem update_id_and_type_read_only:
  "''id'' \<in> keys device_data \<or> ''type'' \<in> keys device_data \<Longrightarrow>
   validate_device_data F device_data False device_type =
     Inr (False,
       (if ''id'' \<in> keys device_data
        then [Some (''Cannot update read-only parameter '' @ quoted ''id'')] else [])
       @ (if ''type'' \<in> keys device_data
          then [Some (''Cannot update read-only parameter '' @ quoted ''type'')] else []))"
  by (auto simp: validate_device_data_def Let_def)

theorem update_id_and_type_read_only_witness:
  "(''id'' \<in> keys [(''type'', PStr ''light''), (''id'', PInt 7), (''status'', PInt 3)]
      \<or> ''type'' \<in> keys [(''type'', PStr ''light''), (''id'', PInt 7), (''status'', PInt 3)])
   \<and> validate_device_data sample_fmt [(''type'', PStr ''light''), (''id'', PInt 7), (''status'', PInt 3)]
         False ''light'' =
       Inr (False,
         [Some (''Cannot update read-only parameter '' @ quoted ''id''),
          Some (''Cannot update read-only parameter '' @ quoted ''type'')])"
proof -
  have h: "''id'' \<in> keys [(''type'', PStr ''light''), (''id'', PInt 7), (''status'', PInt 3)]
      \<or> ''type'' \<in> keys [(''type'', PStr ''light''), (''id'', PInt 7), (''status'', PInt 3)]"
    by (simp add: keys_def)
  show ?thesis
    using h update_id_and_type_read_only [OF h, of sample_fmt "''light''"] by (simp add: keys_def)
qed

text \<open>
  C3. Whenever \<open>validate_device_data\<close> returns a pair, its flag is true exactly when its
  error list is empty.
\<close>

theorem success_iff_no_errors:
  "validate_device_data F device_data new_device device_type = Inr (ok, errors)
     \<Longrightarrow> ok = (errors = [])"
  by (auto simp: validate_device_data_def check_fields_def device_type_error_def Let_def
      split: if_splits option.splits pyval.splits sum.splits)

theorem success_iff_no_errors_witness:
  "validate_device_data sample_fmt [(''id'', PInt 7), (''status'', PStr ''on'')] False ''light'' =
     Inr (False, [Some (''Cannot update read-only parameter '' @ quoted ''id'')])
   \<and> False = ([Some (''Cannot update read-only parameter '' @ quoted ''id'')] = [])"
proof -
  have h: "validate_device_data sample_fmt [(''id'', PInt 7), (''status'', PStr ''on'')] False ''light'' =
     Inr (False, [Some (''Cannot update read-only parameter '' @ quoted ''id'')])"
    by (simp add: validate_device_data_def keys_def)
  show ?thesis
    using h success_iff_no_errors [OF h] by simp
qed

text \<open>
  C9. In update mode with a known device type, a record with none of the keys \<open>id\<close>,
  \<open>type\<close>, \<open>status\<close>, \<open>parameters\<close> is valid, whatever its other keys hold.
\<close>

theorem update_other_keys_pass:
  assumes "device_type \<in> DEVICE_TYPES"
    and "keys device_data \<inter> {''id'', ''type'', ''status'', ''parameters''} = {}"
  shows "validate_device_data F device_data False device_type = Inr (True, [])"
proof -
  have "for_each (field_body F device_data False device_type) (map fst device_data) [] = Inr []"
  proof (rule for_each_skip)
    fix x s assume "x \<in> set (map fst device_data)"
    then have "x \<in> keys device_data"
      by (simp add: keys_def)
    with assms(2) have "x \<noteq> ''status''" "x \<noteq> ''parameters''"
      by blast+
    then show "field_body F device_data False device_type s x = Inr s"
      by (simp add: field_body_def)
  qed
  moreover have "''id'' \<notin> keys device_data" "''type'' \<notin> keys device_data"
    using assms(2) by auto
  ultimately show ?thesis
    using assms(1) by (simp add: validate_device_data_def check_fields_def)
qed

theorem update_other_keys_pass_witness:
  "''curtain'' \<in> DEVICE_TYPES
   \<and> keys [(''room'', PList [PNone]), (''name'', PInt 3), (''owner'', PDict [])]
       \<inter> {''id'', ''type'', ''status'', ''parameters''} = {}
   \<and> validate_device_data sample_fmt
         [(''room'', PList [PNone]), (''name'', PInt 3), (''owner'', PDict [])] False ''curtain''
       = Inr (True, [])"
proof -
  have t: "''curtain'' \<in> DEVICE_TYPES"
    by (simp add: DEVICE_TYPES_def)
  have k: "keys [(''room'', PList [PNone]), (''name'', PInt 3), (''owner'', PDict [])]
       \<inter> {''id'', ''type'', ''status'', ''parameters''} = {}"
    by (simp add: keys_def)
  show ?thesis
    using t k update_other_keys_pass [OF t k, of sample_fmt] by simp
qed

text \<open>
  C2. \<open>fan_speed\<close> is an allowed parameter of an air conditioner and \<open>fan\<close> is not,
  the rule for the items of an air conditioner appends nothing for the key \<open>fan_speed\<close>
  whatever its value is (the branch that checks against \<open>AC_FAN_SETTINGS\<close> tests the key
  \<open>fan\<close>), and the result of the whole validation does not depend on the value stored
  under \<open>fan_speed\<close>.
\<close>

theorem fan_speed_never_checked:
  "''fan_speed'' \<in> AC_PARAMETERS
   \<and> ''fan'' \<notin> AC_PARAMETERS
   \<and> air_conditioner_item F new_device errors (''fan_speed'', v) = Inr errors
   \<and> validate_device_data F (with_parameter ''fan_speed'' v device_data) new_device device_type
     = validate_device_data F (with_parameter ''fan_speed'' v' device_data) new_device device_type"
proof (intro conjI)
  show "''fan_speed'' \<in> AC_PARAMETERS"
    by (simp add: AC_PARAMETERS_def)
  show "''fan'' \<notin> AC_PARAMETERS"
    by (simp add: AC_PARAMETERS_def)
  show "air_conditioner_item F new_device errors (''fan_speed'', v) = Inr errors"
    by (simp add: air_conditioner_item_def)
  show "validate_device_data F (with_parameter ''fan_speed'' v device_data) new_device device_type
     = validate_device_data F (with_parameter ''fan_speed'' v' device_data) new_device device_type"
    by (rule validate_with_parameter) (rule match_device_type_fan_speed)
qed

text \<open>
  C8, as amended. In update mode, for \<open>is_dimmable\<close> and \<open>dynamic_color\<close> of a light and
  \<open>auto_lock_enabled\<close> of a door lock: the rule for the item appends
  "Cannot update read-only parameter '<key>'." and nothing else, whatever the value; the
  result of the whole validation does not depend on the value; and when the record has
  neither \<open>id\<close> nor \<open>type\<close>, its \<open>parameters\<close> is a dictionary of allowed keys that
  holds the key, and the call returns, the returned list holds that error.
\<close>

theorem read_only_parameter_on_update:
  assumes "(t = ''light'' \<and> (k = ''is_dimmable'' \<or> k = ''dynamic_color''))
           \<or> (t = ''door_lock'' \<and> k = ''auto_lock_enabled'')"
  shows "(if t = ''light'' then light_item F False errors (k, v)
          else door_lock_item F False errors (k, v))
         = Inr (errors @ [Some (''Cannot update read-only parameter '' @ quoted k @ ''.'')])
       \<and> validate_device_data F (with_parameter k v d) False t
         = validate_device_data F (with_parameter k v' d) False t
       \<and> (''id'' \<notin> keys d \<and> ''type'' \<notin> keys d \<and> map_of d ''parameters'' = Some (PDict ps)
            \<and> keys ps \<subseteq> allowed_parameters t \<and> k \<in> keys ps
            \<and> validate_device_data F d False t = Inr (ok, errs)
          \<longrightarrow> \<not> ok \<and> Some (''Cannot update read-only parameter '' @ quoted k @ ''.'') \<in> set errs)"
proof (intro conjI impI)
  show "(if t = ''light'' then light_item F False errors (k, v)
          else door_lock_item F False errors (k, v))
         = Inr (errors @ [Some (''Cannot update read-only parameter '' @ quoted k @ ''.'')])"
    using assms by (rule read_only_item)
  have "k = ''is_dimmable'' \<or> k = ''dynamic_color'' \<or> k = ''auto_lock_enabled''"
    using assms by blast
  then show "validate_device_data F (with_parameter k v d) False t
         = validate_device_data F (with_parameter k v' d) False t"
    by (intro validate_with_parameter match_device_type_read_only)
next
  assume h: "''id'' \<notin> keys d \<and> ''type'' \<notin> keys d \<and> map_of d ''parameters'' = Some (PDict ps)
            \<and> keys ps \<subseteq> allowed_parameters t \<and> k \<in> keys ps
            \<and> validate_device_data F d False t = Inr (ok, errs)"
  then have r: "\<not> ok \<and> Some (''Cannot update read-only parameter '' @ quoted k @ ''.'') \<in> set errs"
    using read_only_reported [OF assms] by blast
  from r show "\<not> ok" ..
  from r show "Some (''Cannot update read-only parameter '' @ quoted k @ ''.'') \<in> set errs" ..
qed


theorem read_only_parameter_on_update_witness:
  "((''light'' = ''light'' \<and> (''is_dimmable'' = ''is_dimmable'' \<or> ''is_dimmable'' = ''dynamic_color''))
      \<or> (''light'' = ''door_lock'' \<and> ''is_dimmable'' = ''auto_lock_enabled''))
   \<and> ''id'' \<notin> keys [(''status'', PStr ''off''),
          (''parameters'', PDict [(''brightness'', PInt 50), (''is_dimmable'', PStr ''yes'')])]
   \<and> ''type'' \<notin> keys [(''status'', PStr ''off''),
          (''parameters'', PDict [(''brightness'', PInt 50), (''is_dimmable'', PStr ''yes'')])]
   \<and> map_of [(''status'', PStr ''off''),
          (''parameters'', PDict [(''brightness'', PInt 50), (''is_dimmable'', PStr ''yes'')])]
        ''parameters'' = Some (PDict [(''brightness'', PInt 50), (''is_dimmable'', PStr ''yes'')])
   \<and> keys [(''brightness'', PInt 50), (''is_dimmable'', PStr ''yes'')] \<subseteq> allowed_parameters ''light''
   \<and> ''is_dimmable'' \<in> keys [(''brightness'', PInt 50), (''is_dimmable'', PStr ''yes'')]
   \<and> validate_device_data sample_fmt [(''status'', PStr ''off''),
          (''parameters'', PDict [(''brightness'', PInt 50), (''is_dimmable'', PStr ''yes'')])]
        False ''light''
       = Inr (False, [Some (''Cannot update read-only parameter '' @ quoted ''is_dimmable'' @ ''.'')])
   \<and> Some (''Cannot update read-only parameter '' @ quoted ''is_dimmable'' @ ''.'')
       \<in> set [Some (''Cannot update read-only parameter '' @ quoted ''is_dimmable'' @ ''.'')]"
proof -
  let ?ps = "[(''brightness'', PInt 50), (''is_dimmable'', PStr ''yes'')]"
  let ?d = "[(''status'', PStr ''off''), (''parameters'', PDict ?ps)]"
  have ro: "(''light'' = ''light'' \<and> (''is_dimmable'' = ''is_dimmable'' \<or> ''is_dimmable'' = ''dynamic_color''))
      \<or> (''light'' = ''door_lock'' \<and> ''is_dimmable'' = ''auto_lock_enabled'')"
    by simp
  have k: "''id'' \<notin> keys ?d" "''type'' \<notin> keys ?d" "''is_dimmable'' \<in> keys ?ps"
    by (simp_all add: keys_def)
  have p: "map_of ?d ''parameters'' = Some (PDict ?ps)"
    by simp
  have a: "keys ?ps \<subseteq> allowed_parameters ''light''"
    by (simp add: keys_def allowed_parameters_def LIGHT_PARAMETERS_def)
  have run: "validate_device_data sample_fmt ?d False ''light''
       = Inr (False, [Some (''Cannot update read-only parameter '' @ quoted ''is_dimmable'' @ ''.'')])"
    by (simp add: validate_device_data_def check_fields_def keys_def DEVICE_TYPES_def field_body_def
        status_field_def parameters_field_def verify_type_and_range_def match_device_type_def
        match_case_def LIGHT_PARAMETERS_def light_item_def append_unless_success_def
        MIN_BRIGHTNESS_def MAX_BRIGHTNESS_def read_only_error_def)
  show ?thesis
    using ro k p a run
      read_only_parameter_on_update [OF ro, where F = sample_fmt and d = ?d and ps = ?ps
        and ok = False
        and errs = "[Some (''Cannot update read-only parameter '' @ quoted ''is_dimmable'' @ ''.'')]"]
    by simp
qed

text \<open>
  Without the conditions of the last part the error need not appear: here a key that is not
  allowed stands beside \<open>is_dimmable\<close>, the rules for the items do not run, and the only
  error is the combined one.
\<close>

theorem read_only_parameter_counterexample:
  "validate_device_data sample_fmt
       [(''parameters'', PDict [(''is_dimmable'', PBool True), (''colour'', PStr ''red'')])]
       False ''light''
     = Inr (False, [Some ''Disallowed parameters for light {...}, allowed parameters: {...}''])
   \<and> Some (''Cannot update read-only parameter '' @ quoted ''is_dimmable'' @ ''.'')
       \<notin> set [Some ''Disallowed parameters for light {...}, allowed parameters: {...}'']"
  by (simp add: validate_device_data_def check_fields_def keys_def DEVICE_TYPES_def field_body_def
      parameters_field_def verify_type_and_range_def match_device_type_def match_case_def
      LIGHT_PARAMETERS_def disallowed_error_def sample_fmt_def)

text \<open>
  C7, as amended. Let the call pass the first checks: in new-device mode the key set is the
  canonical one and \<open>type\<close> holds a known device type, in update mode the record has
  neither \<open>id\<close> nor \<open>type\<close> and the given device type is known. If \<open>parameters\<close> is a
  dictionary with at least one key outside the allowed set of the device type, the call
  returns failure, its error list holds the combined "Disallowed parameters" error, naming
  the left-over keys and the allowed set, once for the \<open>parameters\<close> field, and every
  other entry of the list comes from the check of \<open>status\<close>: no rule ran on the items.
\<close>

theorem disallowed_parameters_error:
  assumes reach: "(new_device \<and> keys d = DEVICE_PARAMETERS \<and> map_of d ''type'' = Some (PStr t))
                  \<or> (\<not> new_device \<and> ''id'' \<notin> keys d \<and> ''type'' \<notin> keys d \<and> device_type = t)"
    and known: "t \<in> DEVICE_TYPES"
    and dist: "distinct (map fst d)"
    and params: "map_of d ''parameters'' = Some (PDict ps)"
    and left: "keys ps - allowed_parameters t \<noteq> {}"
  shows "\<exists>before after.
           validate_device_data F d new_device device_type =
             Inr (False,
               before
               @ [Some (''Disallowed parameters for '' @ device_label t @ '' ''
                        @ fmt_set F (keys ps - allowed_parameters t)
                        @ '', allowed parameters: '' @ fmt_set F (allowed_parameters t))]
               @ after)
           \<and> set (before @ after) \<subseteq> set (status_errors F d t)"
proof -
  let ?dis = "Some (''Disallowed parameters for '' @ device_label t @ '' ''
                        @ fmt_set F (keys ps - allowed_parameters t)
                        @ '', allowed parameters: '' @ fmt_set F (allowed_parameters t))"
  obtain before after where
    loop: "for_each (field_body F d new_device t) (map fst d) [] = Inr (before @ [?dis] @ after)"
    and others: "set (before @ after) \<subseteq> set (status_errors F d t)"
    using fields_with_disallowed_parameters [OF known dist params left, of F new_device]
    unfolding disallowed_error_def by blast
  have fields: "check_fields F d new_device (PStr t) [] = Inr (False, before @ [?dis] @ after)"
    using known loop by (simp add: check_fields_def)
  from reach have "validate_device_data F d new_device device_type
                   = Inr (False, before @ [?dis] @ after)"
  proof
    assume "new_device \<and> keys d = DEVICE_PARAMETERS \<and> map_of d ''type'' = Some (PStr t)"
    then show ?thesis
      using fields by (simp add: validate_device_data_def)
  next
    assume "\<not> new_device \<and> ''id'' \<notin> keys d \<and> ''type'' \<notin> keys d \<and> device_type = t"
    then show ?thesis
      using fields by (auto simp: validate_device_data_def)
  qed
  with others show ?thesis by blast
qed


theorem disallowed_parameters_error_witness:
  "((False \<and> keys [(''status'', PStr ''on''),
                    (''parameters'', PDict [(''brightness'', PInt 500), (''colour'', PStr ''red'')])]
               = DEVICE_PARAMETERS
           \<and> map_of [(''status'', PStr ''on''),
                    (''parameters'', PDict [(''brightness'', PInt 500), (''colour'', PStr ''red'')])]
               ''type'' = Some (PStr ''light''))
      \<or> (\<not> False
          \<and> ''id'' \<notin> keys [(''status'', PStr ''on''),
                    (''parameters'', PDict [(''brightness'', PInt 500), (''colour'', PStr ''red'')])]
          \<and> ''type'' \<notin> keys [(''status'', PStr ''on''),
                    (''parameters'', PDict [(''brightness'', PInt 500), (''colour'', PStr ''red'')])]
          \<and> ''light'' = ''light''))
   \<and> ''light'' \<in> DEVICE_TYPES
   \<and> distinct (map fst [(''status'', PStr ''on''),
                    (''parameters'', PDict [(''brightness'', PInt 500), (''colour'', PStr ''red'')])])
   \<and> map_of [(''status'', PStr ''on''),
                    (''parameters'', PDict [(''brightness'', PInt 500), (''colour'', PStr ''red'')])]
        ''parameters'' = Some (PDict [(''brightness'', PInt 500), (''colour'', PStr ''red'')])
   \<and> keys [(''brightness'', PInt 500), (''colour'', PStr ''red'')] - allowed_parameters ''light''
        \<noteq> {}
   \<and> (\<exists>before after.
         validate_device_data sample_fmt
             [(''status'', PStr ''on''),
              (''parameters'', PDict [(''brightness'', PInt 500), (''colour'', PStr ''red'')])]
             False ''light''
           = Inr (False,
               before @ [Some ''Disallowed parameters for light {...}, allowed parameters: {...}'']
               @ after)
         \<and> set (before @ after)
             \<subseteq> set (status_errors sample_fmt
                      [(''status'', PStr ''on''),
                       (''parameters'', PDict [(''brightness'', PInt 500), (''colour'', PStr ''red'')])]
                      ''light''))"
proof -
  let ?ps = "[(''brightness'', PInt 500), (''colour'', PStr ''red'')]"
  let ?d = "[(''status'', PStr ''on''), (''parameters'', PDict ?ps)]"
  have reach: "(False \<and> keys ?d = DEVICE_PARAMETERS \<and> map_of ?d ''type'' = Some (PStr ''light''))
      \<or> (\<not> False \<and> ''id'' \<notin> keys ?d \<and> ''type'' \<notin> keys ?d \<and> ''light'' = ''light'')"
    by (simp add: keys_def)
  have known: "''light'' \<in> DEVICE_TYPES"
    by (simp add: DEVICE_TYPES_def)
  have dist: "distinct (map fst ?d)"
    by simp
  have params: "map_of ?d ''parameters'' = Some (PDict ?ps)"
    by simp
  have "''colour'' \<in> keys ?ps"
    by (simp add: keys_def)
  moreover have "''colour'' \<notin> allowed_parameters ''light''"
    by (simp add: allowed_parameters_def LIGHT_PARAMETERS_def)
  ultimately have left: "keys ?ps - allowed_parameters ''light'' \<noteq> {}"
    by blast
  have label: "device_label ''light'' = ''light''"
    by (simp add: device_label_def)
  show ?thesis
    using reach known dist params left
      disallowed_parameters_error [OF reach known dist params left, of sample_fmt]
    unfolding label by (simp add: sample_fmt_def)
qed

text \<open>
  Without the condition on the first checks the combined error need not appear: an update
  holding \<open>id\<close> returns with the read-only error alone, whatever its \<open>parameters\<close> hold.
\<close>

theorem disallowed_parameters_counterexample:
  "''colour'' \<in> keys [(''colour'', PStr ''red'')] - allowed_parameters ''light''
   \<and> validate_device_data sample_fmt
         [(''id'', PStr ''lamp''), (''parameters'', PDict [(''colour'', PStr ''red'')])] False ''light''
       = Inr (False, [Some (''Cannot update read-only parameter '' @ quoted ''id'')])
   \<and> Some ''Disallowed parameters for light {...}, allowed parameters: {...}''
       \<notin> set [Some (''Cannot update read-only parameter '' @ quoted ''id'')]"
  by (simp add: validate_device_data_def keys_def allowed_parameters_def LIGHT_PARAMETERS_def
      quoted_def)

end
